theory Spec2Isabelle
  imports Main
begin

section \<open>Values handed to the library\<close>

text \<open>
  The library inspects interceptor declarations by their run-time shape
  (\<^verbatim>\<open>Array.isArray\<close>, \<^verbatim>\<open>typeof\<close>, the \<^verbatim>\<open>in\<close> operator), so declarations are
  modelled as JavaScript values: \<open>Undefined\<close>, a function (identified by a
  name), an array, or an object given by its own properties in order.
  \<open>Rethrow\<close> is the closure \<^verbatim>\<open>(error) => Promise.reject(error)\<close> that the
  normalizer supplies when an object declaration has no \<^verbatim>\<open>onError\<close>.
\<close>

datatype jsvalue =
    Undefined
  | Function string
  | Rethrow
  | Array "jsvalue list"
  | Object "(string \<times> jsvalue) list"

text \<open>\<^verbatim>\<open>Array.isArray(v)\<close>\<close>

fun isArray :: "jsvalue \<Rightarrow> bool" where
  "isArray (Array xs) = True"
| "isArray v = False"

text \<open>\<^verbatim>\<open>typeof v === 'object'\<close> (arrays are objects too)\<close>

fun typeof_object :: "jsvalue \<Rightarrow> bool" where
  "typeof_object (Array xs) = True"
| "typeof_object (Object ps) = True"
| "typeof_object v = False"

text \<open>\<^verbatim>\<open>key in v\<close>, for the property names the library asks about\<close>

fun has_property :: "string \<Rightarrow> jsvalue \<Rightarrow> bool" where
  "has_property k (Object ps) = (map_of ps k \<noteq> None)"
| "has_property k v = False"

text \<open>\<^verbatim>\<open>v[key]\<close>: a missing property reads as \<^verbatim>\<open>undefined\<close>\<close>

fun get_property :: "jsvalue \<Rightarrow> string \<Rightarrow> jsvalue" where
  "get_property (Object ps) k = (case map_of ps k of None \<Rightarrow> Undefined | Some v \<Rightarrow> v)"
| "get_property v k = Undefined"

text \<open>\<^verbatim>\<open>v[i]\<close> on an array: an index out of range reads as \<^verbatim>\<open>undefined\<close>\<close>

fun element :: "jsvalue \<Rightarrow> nat \<Rightarrow> jsvalue" where
  "element (Array xs) i = (if i < length xs then xs ! i else Undefined)"
| "element v i = Undefined"

text \<open>\<^verbatim>\<open>v.length\<close> on an array\<close>

fun array_length :: "jsvalue \<Rightarrow> nat" where
  "array_length (Array xs) = length xs"
| "array_length v = 0"

text \<open>Truthiness: of the values modelled only \<^verbatim>\<open>undefined\<close> is falsy.\<close>

fun truthy :: "jsvalue \<Rightarrow> bool" where
  "truthy Undefined = False"
| "truthy v = True"

text \<open>\<^verbatim>\<open>a ?? b\<close>\<close>

fun nullish_or :: "jsvalue \<Rightarrow> jsvalue \<Rightarrow> jsvalue" where
  "nullish_or Undefined b = b"
| "nullish_or a b = a"

section \<open>Types of \<^verbatim>\<open>types.ts\<close>\<close>

text \<open>\<^verbatim>\<open>InstanceName = symbol | string\<close>; a symbol is given by its registry key
  (\<^verbatim>\<open>Symbol.for(key)\<close>).\<close>

datatype instance_name = Symbol string | Name string

text \<open>Errors: the three the registry raises, and any other thrown value (a
  transport rejection, or what an error handler throws).\<close>

datatype error =
    InstanceExists instance_name
  | DefaultExists
  | NotFound instance_name
  | Thrown string

text \<open>\<^verbatim>\<open>errorConfig\<close>: the handlers are user functions, identified by name.\<close>

record error_config =
  errorHandler :: "string option"
  errorThrower :: "string option"

text \<open>The nested \<^verbatim>\<open>interceptors\<close> option; an absent side is \<open>Undefined\<close>.\<close>

record interceptors_option =
  on_request :: jsvalue
  on_response :: jsvalue

text \<open>\<^verbatim>\<open>CustomRequestConfig\<close>; \<open>native\<close> stands for the options of the
  underlying client, which the library passes through untouched.\<close>

record config =
  instanceName :: "instance_name option"
  skipErrorHandler :: "bool option"
  withFullResponse :: "bool option"
  errorConfig :: "error_config option"
  interceptors :: "interceptors_option option"
  requestInterceptors :: "jsvalue list option"
  responseInterceptors :: "jsvalue list option"
  native :: "(string \<times> string) list"

section \<open>The underlying client\<close>

text \<open>
  Modelled from the spec: the underlying HTTP client is an external library
  whose code is not part of this repository. The spec names the primitives the
  library consumes: instance construction, the interceptor chains' attach
  (returning a chain-assigned identifier) and eject, and request dispatch.
  A chain is the client's handler array: attaching appends an entry and
  returns its index, ejecting clears the slot (the array never shrinks), so
  an identifier is never reused and never equals \<open>-1\<close>.
\<close>

record handler =
  fulfilled :: jsvalue
  rejected :: jsvalue

type_synonym chain = "handler option list"

record axios_instance =
  defaults :: config
  request_chain :: chain
  response_chain :: chain

definition use :: "jsvalue \<Rightarrow> jsvalue \<Rightarrow> chain \<Rightarrow> int \<times> chain" where
  "use onFulfilled onRejected hs =
     (int (length hs), hs @ [Some \<lparr>fulfilled = onFulfilled, rejected = onRejected\<rparr>])"

definition eject :: "int \<Rightarrow> chain \<Rightarrow> chain" where
  "eject i hs =
     (if 0 \<le> i \<and> nat i < length hs \<and> hs ! nat i \<noteq> None then hs[nat i := None] else hs)"

text \<open>\<^verbatim>\<open>instance.interceptors.request.use(f, r)\<close> and the response side\<close>

definition request_use :: "jsvalue \<Rightarrow> jsvalue \<Rightarrow> axios_instance \<Rightarrow> int \<times> axios_instance" where
  "request_use f r inst =
     (case use f r (request_chain inst) of (i, hs) \<Rightarrow> (i, inst\<lparr>request_chain := hs\<rparr>))"

definition response_use :: "jsvalue \<Rightarrow> jsvalue \<Rightarrow> axios_instance \<Rightarrow> int \<times> axios_instance" where
  "response_use f r inst =
     (case use f r (response_chain inst) of (i, hs) \<Rightarrow> (i, inst\<lparr>response_chain := hs\<rparr>))"

definition request_eject :: "axios_instance \<Rightarrow> int \<Rightarrow> axios_instance" where
  "request_eject inst i = inst\<lparr>request_chain := eject i (request_chain inst)\<rparr>"

definition response_eject :: "axios_instance \<Rightarrow> int \<Rightarrow> axios_instance" where
  "response_eject inst i = inst\<lparr>response_chain := eject i (response_chain inst)\<rparr>"

text \<open>\<^verbatim>\<open>axios.create(config)\<close>: the instance keeps the configuration as its
  defaults and starts with empty chains.\<close>

definition create :: "config \<Rightarrow> axios_instance" where
  "create c = \<lparr>defaults = c, request_chain = [], response_chain = []\<rparr>"

text \<open>The interceptors a chain holds: its non-empty slots with their identifiers.\<close>

definition active :: "chain \<Rightarrow> (nat \<times> handler option) list" where
  "active hs = filter (\<lambda>p. snd p \<noteq> None) (enumerate 0 hs)"

text \<open>The full response envelope, and what \<^verbatim>\<open>request\<close> resolves to.\<close>

record response =
  status :: nat
  headers :: "(string \<times> string) list"
  data :: string

datatype resolved = Envelope response | Payload string

section \<open>The interceptor normalizer\<close>

definition INVALID_INTERCEPTOR_ID :: int where
  "INVALID_INTERCEPTOR_ID = - 1"

definition handleRequestInterceptor :: "axios_instance \<Rightarrow> jsvalue \<Rightarrow> int \<times> axios_instance" where
  "handleRequestInterceptor inst interceptor =
     (if \<not> isArray interceptor \<and> typeof_object interceptor \<and> has_property ''onConfig'' interceptor
      then
        (let onConfig = get_property interceptor ''onConfig'';
             onError = get_property interceptor ''onError''
         in if truthy onConfig
            then request_use onConfig (nullish_or onError Rethrow) inst
            else (INVALID_INTERCEPTOR_ID, inst))
      else if isArray interceptor
      then
        (if array_length interceptor = 2
         then request_use (element interceptor 0) (element interceptor 1) inst
         else request_use (element interceptor 0) Undefined inst)
      else request_use interceptor Undefined inst)"

definition handleResponseInterceptor :: "axios_instance \<Rightarrow> jsvalue \<Rightarrow> int \<times> axios_instance" where
  "handleResponseInterceptor inst interceptor =
     (if \<not> isArray interceptor \<and> typeof_object interceptor \<and> has_property ''onConfig'' interceptor
      then
        (let onConfig = get_property interceptor ''onConfig'';
             onError = get_property interceptor ''onError''
         in if truthy onConfig
            then response_use onConfig (nullish_or onError Rethrow) inst
            else (INVALID_INTERCEPTOR_ID, inst))
      else if isArray interceptor
      then
        (if array_length interceptor = 2
         then response_use (element interceptor 0) (element interceptor 1) inst
         else response_use (element interceptor 0) Undefined inst)
      else response_use interceptor Undefined inst)"

section \<open>The bulk attach helper\<close>

text \<open>The state of the \<^verbatim>\<open>forEach\<close> loops: the instance and the two identifier
  lists collected so far.\<close>

type_synonym attach_state = "axios_instance \<times> int list \<times> int list"

definition attach_request :: "bool \<Rightarrow> attach_state \<Rightarrow> jsvalue \<Rightarrow> attach_state" where
  "attach_request isOneTime s interceptor =
     (case s of (inst, requestIds, responseIds) \<Rightarrow>
        (case handleRequestInterceptor inst interceptor of (i, inst') \<Rightarrow>
           (inst',
            if i \<noteq> INVALID_INTERCEPTOR_ID \<and> isOneTime then requestIds @ [i] else requestIds,
            responseIds)))"

definition attach_response :: "bool \<Rightarrow> attach_state \<Rightarrow> jsvalue \<Rightarrow> attach_state" where
  "attach_response isOneTime s interceptor =
     (case s of (inst, requestIds, responseIds) \<Rightarrow>
        (case handleResponseInterceptor inst interceptor of (i, inst') \<Rightarrow>
           (inst',
            requestIds,
            if i \<noteq> INVALID_INTERCEPTOR_ID \<and> isOneTime then responseIds @ [i] else responseIds)))"

text \<open>\<^verbatim>\<open>Array.isArray(x) ? x : [x]\<close>\<close>

fun as_list :: "jsvalue \<Rightarrow> jsvalue list" where
  "as_list (Array xs) = xs"
| "as_list v = [v]"

definition attach_nested :: "bool \<Rightarrow> interceptors_option \<Rightarrow> attach_state \<Rightarrow> attach_state" where
  "attach_nested isOneTime ics s =
     (let s1 = (if truthy (on_request ics)
                then foldl (attach_request isOneTime) s (as_list (on_request ics)) else s)
      in if truthy (on_response ics)
         then foldl (attach_response isOneTime) s1 (as_list (on_response ics)) else s1)"

definition addInterceptorsToInstance ::
  "axios_instance \<Rightarrow> config \<Rightarrow> bool \<Rightarrow> (int list \<times> int list) \<times> axios_instance" where
  "addInterceptorsToInstance inst c isOneTime =
     (let s0 = (inst, [], []);
          s1 = (case interceptors c of None \<Rightarrow> s0 | Some ics \<Rightarrow> attach_nested isOneTime ics s0);
          s2 = (case requestInterceptors c of None \<Rightarrow> s1
                | Some xs \<Rightarrow> foldl (attach_request isOneTime) s1 xs);
          s3 = (case responseInterceptors c of None \<Rightarrow> s2
                | Some xs \<Rightarrow> foldl (attach_response isOneTime) s2 xs)
      in case s3 of (inst', requestIds, responseIds) \<Rightarrow> ((requestIds, responseIds), inst'))"

section \<open>The instance registry\<close>

text \<open>
  What the library does besides returning: console output, the ejections of
  the cleanup step, and the calls of user error handlers (with the arguments
  they receive), recorded in order.
\<close>

datatype event =
    ConsoleWarn string
  | ConsoleLog instance_name
  | RequestEject int
  | ResponseEject int
  | ErrorHandlerCall string error config

text \<open>\<^verbatim>\<open>instanceMap\<close> is a JavaScript \<^verbatim>\<open>Map\<close>: entries in insertion order,
  one per key.\<close>

type_synonym instance_map = "(instance_name \<times> axios_instance) list"

record state =
  instanceMap :: instance_map
  trace :: "event list"

text \<open>\<^verbatim>\<open>Map.has\<close>, \<^verbatim>\<open>Map.get\<close>, \<^verbatim>\<open>Map.size\<close> and \<^verbatim>\<open>Map.set\<close> (which replaces the
  value of an existing key in place and appends a new key)\<close>

definition map_has :: "instance_map \<Rightarrow> instance_name \<Rightarrow> bool" where
  "map_has m n = (map_of m n \<noteq> None)"

definition map_get :: "instance_map \<Rightarrow> instance_name \<Rightarrow> axios_instance option" where
  "map_get m n = map_of m n"

definition map_size :: "instance_map \<Rightarrow> nat" where
  "map_size m = length m"

fun map_set :: "instance_name \<Rightarrow> axios_instance \<Rightarrow> instance_map \<Rightarrow> instance_map" where
  "map_set n v [] = [(n, v)]"
| "map_set n v (p # ps) = (if fst p = n then (n, v) # ps else p # map_set n v ps)"

definition DEFAULT_INSTANCE_NAME :: instance_name where
  "DEFAULT_INSTANCE_NAME = Symbol ''default''"

text \<open>\<^verbatim>\<open>config.instanceName ?? DEFAULT_INSTANCE_NAME\<close>\<close>

fun name_or_default :: "instance_name option \<Rightarrow> instance_name" where
  "name_or_default None = DEFAULT_INSTANCE_NAME"
| "name_or_default (Some n) = n"

text \<open>Truthiness of \<^verbatim>\<open>config.instanceName\<close>: \<^verbatim>\<open>undefined\<close> and the empty string
  are falsy, a symbol is truthy.\<close>

fun name_truthy :: "instance_name option \<Rightarrow> bool" where
  "name_truthy None = False"
| "name_truthy (Some (Name s)) = (s \<noteq> [])"
| "name_truthy (Some (Symbol k)) = True"

text \<open>The body of the \<^verbatim>\<open>forEach\<close> callback of \<^verbatim>\<open>defineRequestConfig\<close>: \<open>Inl\<close> is
  the error it throws, \<open>Inr ()\<close> its return.\<close>

definition define_one :: "config \<Rightarrow> state \<Rightarrow> (error + unit) \<times> state" where
  "define_one c s =
     (let instanceName = name_or_default (instanceName c) in
      if map_has (instanceMap s) instanceName
      then
        (if instanceName = DEFAULT_INSTANCE_NAME \<and> map_size (instanceMap s) = 0
         then (Inr (),
               s\<lparr>trace := trace s @
                  [ConsoleWarn ''Default instance already defined, ignoring this definition'']\<rparr>)
         else (Inl (InstanceExists instanceName), s))
      else if \<not> name_truthy (config.instanceName c) \<and> map_has (instanceMap s) DEFAULT_INSTANCE_NAME
      then (Inl DefaultExists, s)
      else
        (let inst = create c;
             inst' = snd (addInterceptorsToInstance inst c False)
         in (Inr (),
             s\<lparr>instanceMap := map_set instanceName inst' (instanceMap s),
               trace := trace s @ [ConsoleLog instanceName]\<rparr>)))"

text \<open>\<^verbatim>\<open>configsArray.forEach\<close>: a throw leaves the loop, and what earlier
  iterations stored stays.\<close>

fun define_each :: "config list \<Rightarrow> state \<Rightarrow> (error + unit) \<times> state" where
  "define_each [] s = (Inr (), s)"
| "define_each (c # cs) s =
     (case define_one c s of
        (Inl e, s') \<Rightarrow> (Inl e, s')
      | (Inr u, s') \<Rightarrow> define_each cs s')"

text \<open>The argument of \<^verbatim>\<open>defineRequestConfig\<close>: one configuration or an array.\<close>

datatype configs = Single config | Several "config list"

fun defineRequestConfig :: "configs \<Rightarrow> state \<Rightarrow> (error + unit) \<times> state" where
  "defineRequestConfig (Single c) s = define_each [c] s"
| "defineRequestConfig (Several cs) s = define_each cs s"

definition getRequestInstance :: "instance_name option \<Rightarrow> state \<Rightarrow> error + axios_instance" where
  "getRequestInstance n s =
     (case map_get (instanceMap s) (name_or_default n) of
        None \<Rightarrow> Inl (NotFound (name_or_default n))
      | Some inst \<Rightarrow> Inr inst)"

section \<open>The dispatcher\<close>

text \<open>
  Two things \<^verbatim>\<open>request\<close> calls are not the library's own and are parameters
  here: \<open>send\<close> is \<^verbatim>\<open>instance.request\<close> of the underlying client, giving the
  response it resolves to or the error it rejects with, and \<open>run\<close> is the
  behaviour of the user's error handlers, \<open>None\<close> when the handler returns
  and \<open>Some e\<close> when it throws \<open>e\<close>. Calls are taken one at a time: neither
  parameter touches the registry or a chain.
\<close>

type_synonym transport = "axios_instance \<Rightarrow> config \<Rightarrow> error + response"

type_synonym handlers = "string \<Rightarrow> error \<Rightarrow> config \<Rightarrow> error option"

text \<open>\<^verbatim>\<open>[...instanceMap.entries()].find(([name]) => name === instanceName)?.[1]?.defaults\<close>\<close>

definition instance_defaults :: "instance_map \<Rightarrow> instance_name \<Rightarrow> config option" where
  "instance_defaults m n = map_option (\<lambda>p. defaults (snd p)) (find (\<lambda>p. fst p = n) m)"

text \<open>\<^verbatim>\<open>{...config, withFullResponse: config.withFullResponse !== undefined ? ... : ...}\<close>\<close>

definition merged :: "config \<Rightarrow> config option \<Rightarrow> config" where
  "merged c instanceConfig =
     c\<lparr>withFullResponse :=
         (if withFullResponse c \<noteq> None then withFullResponse c
          else (case instanceConfig of None \<Rightarrow> None | Some d \<Rightarrow> withFullResponse d))\<rparr>"

text \<open>\<^verbatim>\<open>c.errorConfig?.errorHandler\<close>\<close>

definition handler_of :: "config \<Rightarrow> string option" where
  "handler_of c = (case errorConfig c of None \<Rightarrow> None | Some ec \<Rightarrow> errorHandler ec)"

text \<open>Calling an error handler and then \<^verbatim>\<open>throw error\<close>: when the handler
  throws, its error leaves \<^verbatim>\<open>request\<close> instead.\<close>

definition call_handler ::
  "handlers \<Rightarrow> string \<Rightarrow> error \<Rightarrow> config \<Rightarrow> state \<Rightarrow> (error + resolved) \<times> state" where
  "call_handler run h err mergedConfig s =
     (let s' = s\<lparr>trace := trace s @ [ErrorHandlerCall h err mergedConfig]\<rparr>
      in case run h err mergedConfig of
           Some thrown \<Rightarrow> (Inl thrown, s')
         | None \<Rightarrow> (Inl err, s'))"

text \<open>The \<^verbatim>\<open>catch\<close> block of \<^verbatim>\<open>request\<close>\<close>

definition on_catch :: "handlers \<Rightarrow> config \<Rightarrow> error \<Rightarrow> state \<Rightarrow> (error + resolved) \<times> state" where
  "on_catch run c err s =
     (if skipErrorHandler c = Some True then (Inl err, s)
      else
        (let instanceConfig = instance_defaults (instanceMap s) (name_or_default (instanceName c));
             mergedConfig = merged c instanceConfig
         in case handler_of c of
              Some h \<Rightarrow> call_handler run h err mergedConfig s
            | None \<Rightarrow>
                (case (case instanceConfig of None \<Rightarrow> None | Some d \<Rightarrow> handler_of d) of
                   Some h \<Rightarrow> call_handler run h err mergedConfig s
                 | None \<Rightarrow> (Inl err, s))))"

text \<open>\<^verbatim>\<open>request\<close>: the instance is an object held by the map, so what the
  attach and the cleanup do to its chains is written back to its entry.\<close>

definition request :: "transport \<Rightarrow> handlers \<Rightarrow> config \<Rightarrow> state \<Rightarrow> (error + resolved) \<times> state" where
  "request send run c s =
     (let instanceName = name_or_default (instanceName c) in
      case getRequestInstance (Some instanceName) s of
        Inl err \<Rightarrow> on_catch run c err s
      | Inr inst \<Rightarrow>
          (let instanceConfig = instance_defaults (instanceMap s) instanceName;
               mergedConfig = merged c instanceConfig
           in case addInterceptorsToInstance inst mergedConfig True of
                ((requestIds, responseIds), inst1) \<Rightarrow>
                  (let outcome = send inst1 mergedConfig;
                       inst2 = foldl request_eject inst1 requestIds;
                       inst3 = foldl response_eject inst2 responseIds;
                       s' = s\<lparr>instanceMap := map_set instanceName inst3 (instanceMap s),
                              trace := trace s @ map RequestEject requestIds
                                               @ map ResponseEject responseIds\<rparr>
                   in case outcome of
                        Inr response \<Rightarrow>
                          (Inr (if withFullResponse mergedConfig = Some True
                                then Envelope response else Payload (data response)), s')
                      | Inl err \<Rightarrow> on_catch run c err s')))"

section \<open>Observations used in the statements\<close>

text \<open>What an instance holds for its callers: its defaults and the interceptors
  on its two chains, with their identifiers. Ejected slots are not counted.\<close>

definition view ::
  "axios_instance \<Rightarrow> config \<times> (nat \<times> handler option) list \<times> (nat \<times> handler option) list" where
  "view inst = (defaults inst, active (request_chain inst), active (response_chain inst))"

definition registry_view ::
  "state \<Rightarrow> (instance_name \<times> config \<times> (nat \<times> handler option) list
              \<times> (nat \<times> handler option) list) list" where
  "registry_view s = map (\<lambda>p. (fst p, view (snd p))) (instanceMap s)"

fun is_ejection :: "event \<Rightarrow> bool" where
  "is_ejection (RequestEject i) = True"
| "is_ejection (ResponseEject i) = True"
| "is_ejection e = False"

fun is_handler_call :: "event \<Rightarrow> bool" where
  "is_handler_call (ErrorHandlerCall h e c) = True"
| "is_handler_call e = False"

text \<open>\<^verbatim>\<open>mergedConfig\<close> of a call, in a given registry\<close>

definition merged_config :: "config \<Rightarrow> state \<Rightarrow> config" where
  "merged_config c s =
     merged c (instance_defaults (instanceMap s) (name_or_default (instanceName c)))"

text \<open>The one-shot attach of a call: the identifiers it captures and the
  instance as the underlying call sees it; nothing when the name is not
  registered.\<close>

definition one_shot_attach ::
  "config \<Rightarrow> state \<Rightarrow> (int list \<times> int list) \<times> axios_instance option" where
  "one_shot_attach c s =
     (case map_get (instanceMap s) (name_or_default (instanceName c)) of
        None \<Rightarrow> (([], []), None)
      | Some inst \<Rightarrow>
          (case addInterceptorsToInstance inst (merged_config c s) True of
             (ids, inst1) \<Rightarrow> (ids, Some inst1)))"

text \<open>How the \<^verbatim>\<open>try\<close> block of \<^verbatim>\<open>request\<close> ends, before any error policy: with
  the lookup's error, or with what the underlying call settles to. A failing
  call is one where this is \<open>Inl\<close>.\<close>

definition attempt :: "transport \<Rightarrow> config \<Rightarrow> state \<Rightarrow> error + response" where
  "attempt send c s =
     (case snd (one_shot_attach c s) of
        None \<Rightarrow> Inl (NotFound (name_or_default (instanceName c)))
      | Some inst1 \<Rightarrow> send inst1 (merged_config c s))"

text \<open>\<^verbatim>\<open>instanceConfig?.errorConfig?.errorHandler\<close>\<close>

definition instance_handler :: "config \<Rightarrow> state \<Rightarrow> string option" where
  "instance_handler c s =
     (case instance_defaults (instanceMap s) (name_or_default (instanceName c)) of
        None \<Rightarrow> None
      | Some d \<Rightarrow> handler_of d)"

text \<open>The handler the \<^verbatim>\<open>catch\<close> block picks: the call's, else the instance's.\<close>

definition chosen_handler :: "config \<Rightarrow> config option \<Rightarrow> string option" where
  "chosen_handler c instanceConfig =
     (case handler_of c of
        Some h \<Rightarrow> Some h
      | None \<Rightarrow> (case instanceConfig of None \<Rightarrow> None | Some d \<Rightarrow> handler_of d))"

text \<open>The error that leaves \<^verbatim>\<open>request\<close> after handler \<open>h\<close> was called with
  \<open>err\<close>: \<open>err\<close> itself, unless the handler throws.\<close>

definition rethrown :: "handlers \<Rightarrow> string \<Rightarrow> error \<Rightarrow> config \<Rightarrow> error" where
  "rethrown run h err mergedConfig =
     (case run h err mergedConfig of None \<Rightarrow> err | Some thrown \<Rightarrow> thrown)"

text \<open>Several calls of \<^verbatim>\<open>request\<close>, one after the other\<close>

definition requests :: "transport \<Rightarrow> handlers \<Rightarrow> config list \<Rightarrow> state \<Rightarrow> state" where
  "requests send run cs s = foldl (\<lambda>s' c. snd (request send run c s')) s cs"

subsection \<open>A call in two steps\<close>

text \<open>
  \<^verbatim>\<open>request\<close> is an \<^verbatim>\<open>async\<close> function: it runs up to the \<^verbatim>\<open>await\<close> of the
  underlying call in one go, and the rest runs when that call settles; other
  calls can start or settle in between. The two steps below are the same
  source lines as \<open>request\<close>, cut at the \<^verbatim>\<open>await\<close>. What the second step needs
  from the first is kept in a record: the name of the instance (the instance
  is the object the map holds under this name; entries are never replaced or
  removed), the merged configuration, the instance as the underlying call was
  given it, and the two lists of captured identifiers.
\<close>

record pending =
  pending_name :: instance_name
  pending_config :: config
  pending_instance :: axios_instance
  pending_requestIds :: "int list"
  pending_responseIds :: "int list"

datatype started = Settled "error + resolved" | Awaiting pending

text \<open>Up to the \<^verbatim>\<open>await\<close>: the lookup (whose error goes to the \<^verbatim>\<open>catch\<close> block at
  once), the merge, and the one-shot attach.\<close>

definition request_start :: "handlers \<Rightarrow> config \<Rightarrow> state \<Rightarrow> started \<times> state" where
  "request_start run c s =
     (let instanceName = name_or_default (instanceName c) in
      case getRequestInstance (Some instanceName) s of
        Inl err \<Rightarrow> (case on_catch run c err s of (r, s') \<Rightarrow> (Settled r, s'))
      | Inr inst \<Rightarrow>
          (let instanceConfig = instance_defaults (instanceMap s) instanceName;
               mergedConfig = merged c instanceConfig
           in case addInterceptorsToInstance inst mergedConfig True of
                ((requestIds, responseIds), inst1) \<Rightarrow>
                  (Awaiting \<lparr>pending_name = instanceName, pending_config = mergedConfig,
                             pending_instance = inst1, pending_requestIds = requestIds,
                             pending_responseIds = responseIds\<rparr>,
                   s\<lparr>instanceMap := map_set instanceName inst1 (instanceMap s)\<rparr>)))"

text \<open>When the underlying call has settled with \<open>outcome\<close>: the \<^verbatim>\<open>finally\<close> block
  ejects this call's identifiers from the instance as it is by then, and the
  call returns or goes to the \<^verbatim>\<open>catch\<close> block.\<close>

definition request_settle ::
  "handlers \<Rightarrow> config \<Rightarrow> pending \<Rightarrow> error + response \<Rightarrow> state \<Rightarrow> (error + resolved) \<times> state" where
  "request_settle run c p outcome s =
     (let s' = s\<lparr>instanceMap :=
                   (case map_get (instanceMap s) (pending_name p) of
                      None \<Rightarrow> instanceMap s
                    | Some inst \<Rightarrow>
                        map_set (pending_name p)
                          (foldl response_eject
                             (foldl request_eject inst (pending_requestIds p))
                             (pending_responseIds p))
                          (instanceMap s)),
                 trace := trace s @ map RequestEject (pending_requestIds p)
                                  @ map ResponseEject (pending_responseIds p)\<rparr>
      in case outcome of
           Inr response \<Rightarrow>
             (Inr (if withFullResponse (pending_config p) = Some True
                   then Envelope response else Payload (data response)), s')
         | Inl err \<Rightarrow> on_catch run c err s')"

subsection \<open>The invariant of the one-shot attach\<close>

text \<open>A chain \<open>hs\<close> grows from \<open>base\<close> with identifiers \<open>ids\<close> when it is
  \<open>base\<close> followed by filled slots only, and \<open>ids\<close> are exactly the
  positions of these slots, in order.\<close>

definition grows :: "chain \<Rightarrow> chain \<Rightarrow> int list \<Rightarrow> bool" where
  "grows base hs ids =
     (\<exists>xs. hs = base @ xs \<and> None \<notin> set xs \<and>
           ids = map int [length base ..< length base + length xs])"

definition ephemeral :: "axios_instance \<Rightarrow> attach_state \<Rightarrow> bool" where
  "ephemeral b st =
     (case st of (inst, requestIds, responseIds) \<Rightarrow>
        defaults inst = defaults b \<and>
        grows (request_chain b) (request_chain inst) requestIds \<and>
        grows (response_chain b) (response_chain inst) responseIds)"

subsection \<open>Example inputs\<close>

definition empty_config :: config where
  "empty_config = \<lparr>instanceName = None, skipErrorHandler = None, withFullResponse = None,
     errorConfig = None, interceptors = None, requestInterceptors = None,
     responseInterceptors = None, native = []\<rparr>"

text \<open>The registry when the module is loaded\<close>

definition initial_state :: state where
  "initial_state = \<lparr>instanceMap = [], trace = []\<rparr>"

definition default_registered :: state where
  "default_registered = snd (defineRequestConfig (Single empty_config) initial_state)"

definition named_config :: config where
  "named_config = empty_config\<lparr>instanceName := Some (Name ''other'')\<rparr>"

definition named_registered :: state where
  "named_registered =
     snd (defineRequestConfig (Several [empty_config, named_config]) initial_state)"

definition observed_config :: config where
  "observed_config =
     empty_config\<lparr>errorConfig := Some \<lparr>errorHandler = Some ''onCallError'', errorThrower = None\<rparr>\<rparr>"

definition skipping_config :: config where
  "skipping_config = observed_config\<lparr>skipErrorHandler := Some True\<rparr>"

definition unobserved_config :: config where
  "unobserved_config = empty_config\<lparr>skipErrorHandler := Some False\<rparr>"

definition one_shot_config :: config where
  "one_shot_config = observed_config\<lparr>
      interceptors := Some \<lparr>on_request = Function ''addToken'',
                             on_response = Array [Array [Function ''unwrap'', Function ''onError'']]\<rparr>,
      requestInterceptors := Some [Object [(''onConfig'', Undefined)]]\<rparr>"

text \<open>An instance whose registered defaults skip error handling, ask for the
  full response and carry an error handler\<close>

definition guarded_defaults :: config where
  "guarded_defaults = empty_config\<lparr>skipErrorHandler := Some True, withFullResponse := Some True,
      errorConfig := Some \<lparr>errorHandler = Some ''onInstanceError'', errorThrower = None\<rparr>\<rparr>"

definition guarded_registered :: state where
  "guarded_registered = snd (defineRequestConfig (Single guarded_defaults) initial_state)"

definition failing_transport :: transport where
  "failing_transport inst c = Inl (Thrown ''Network Error'')"

definition ok_transport :: transport where
  "ok_transport inst c = Inr \<lparr>status = 200, headers = [], data = ''payload''\<rparr>"

definition quiet_handlers :: handlers where
  "quiet_handlers h err c = None"

definition throwing_handlers :: handlers where
  "throwing_handlers h err c = Some (Thrown ''handler failed'')"

text \<open>Two calls in flight on the default instance: an earlier call with a
  one-shot request interceptor has started and not settled when the call of
  \<open>one_shot_config\<close> starts.\<close>

definition earlier_config :: config where
  "earlier_config = empty_config\<lparr>requestInterceptors := Some [Function ''traceId'']\<rparr>"

definition earlier_started :: state where
  "earlier_started = snd (request_start quiet_handlers earlier_config guarded_registered)"

definition later_pending :: pending where
  "later_pending =
     \<lparr>pending_name = DEFAULT_INSTANCE_NAME,
      pending_config = one_shot_config\<lparr>withFullResponse := Some True\<rparr>,
      pending_instance =
        \<lparr>defaults = guarded_defaults,
         request_chain = [Some \<lparr>fulfilled = Function ''traceId'', rejected = Undefined\<rparr>,
                          Some \<lparr>fulfilled = Function ''addToken'', rejected = Undefined\<rparr>],
         response_chain =
           [Some \<lparr>fulfilled = Function ''unwrap'', rejected = Function ''onError''\<rparr>]\<rparr>,
      pending_requestIds = [1],
      pending_responseIds = [0]\<rparr>"

definition one_shot_pending :: pending where
  "one_shot_pending =
     \<lparr>pending_name = DEFAULT_INSTANCE_NAME,
      pending_config = one_shot_config\<lparr>withFullResponse := Some True\<rparr>,
      pending_instance =
        \<lparr>defaults = guarded_defaults,
         request_chain = [Some \<lparr>fulfilled = Function ''addToken'', rejected = Undefined\<rparr>],
         response_chain =
           [Some \<lparr>fulfilled = Function ''unwrap'', rejected = Function ''onError''\<rparr>]\<rparr>,
      pending_requestIds = [0],
      pending_responseIds = [0]\<rparr>"

definition one_shot_started :: state where
  "one_shot_started =
     \<lparr>instanceMap = [(DEFAULT_INSTANCE_NAME, pending_instance one_shot_pending)],
      trace = [ConsoleLog DEFAULT_INSTANCE_NAME]\<rparr>"

section \<open>The normalizer, shape by shape\<close>

lemma request_use_appends:
  "request_use f r inst =
     (int (length (request_chain inst)),
      inst\<lparr>request_chain := request_chain inst @ [Some \<lparr>fulfilled = f, rejected = r\<rparr>]\<rparr>)"
  by (simp add: request_use_def use_def)

lemma response_use_appends:
  "response_use f r inst =
     (int (length (response_chain inst)),
      inst\<lparr>response_chain := response_chain inst @ [Some \<lparr>fulfilled = f, rejected = r\<rparr>]\<rparr>)"
  by (simp add: response_use_def use_def)

text \<open>A bare function registers a success callback only; a two-element tuple a
  success and an error callback; a one-element tuple its success callback.\<close>

lemma handleRequestInterceptor_function_and_tuples:
  "handleRequestInterceptor inst (Function f) = request_use (Function f) Undefined inst"
  "handleRequestInterceptor inst (Array [a, b]) = request_use a b inst"
  "handleRequestInterceptor inst (Array [a]) = request_use a Undefined inst"
  by (simp_all add: handleRequestInterceptor_def)

lemma handleResponseInterceptor_function_and_tuples:
  "handleResponseInterceptor inst (Function f) = response_use (Function f) Undefined inst"
  "handleResponseInterceptor inst (Array [a, b]) = response_use a b inst"
  "handleResponseInterceptor inst (Array [a]) = response_use a Undefined inst"
  by (simp_all add: handleResponseInterceptor_def)

text \<open>An object whose \<^verbatim>\<open>onConfig\<close> is set registers it with \<^verbatim>\<open>onError\<close>, or with
  the default rethrow when \<^verbatim>\<open>onError\<close> is missing.\<close>

lemma handleRequestInterceptor_object:
  assumes "map_of ps ''onConfig'' = Some f" and "f \<noteq> Undefined"
  shows "handleRequestInterceptor inst (Object ps) =
           request_use f (nullish_or (get_property (Object ps) ''onError'') Rethrow) inst"
  using assms by (cases f) (simp_all add: handleRequestInterceptor_def)

lemma handleResponseInterceptor_object:
  assumes "map_of ps ''onConfig'' = Some f" and "f \<noteq> Undefined"
  shows "handleResponseInterceptor inst (Object ps) =
           response_use f (nullish_or (get_property (Object ps) ''onError'') Rethrow) inst"
  using assms by (cases f) (simp_all add: handleResponseInterceptor_def)

text \<open>An object whose \<^verbatim>\<open>onConfig\<close> property is there but unset registers nothing.\<close>

lemma handleRequestInterceptor_object_unset:
  "map_of ps ''onConfig'' = Some Undefined \<Longrightarrow>
   handleRequestInterceptor inst (Object ps) = (INVALID_INTERCEPTOR_ID, inst)"
  by (simp add: handleRequestInterceptor_def)

lemma handleResponseInterceptor_object_unset:
  "map_of ps ''onConfig'' = Some Undefined \<Longrightarrow>
   handleResponseInterceptor inst (Object ps) = (INVALID_INTERCEPTOR_ID, inst)"
  by (simp add: handleResponseInterceptor_def)

text \<open>
  Claim C5. The normalizer registers one success callback for a bare function,
  a success and an error callback for a two-element tuple, the success
  callback for a one-element tuple, \<^verbatim>\<open>onConfig\<close> with \<^verbatim>\<open>onError\<close> or the default
  rethrow for an object with \<^verbatim>\<open>onConfig\<close> set, and for an object declaration
  lacking \<^verbatim>\<open>onConfig\<close> it registers nothing and returns the sentinel. The lemmas
  above give the first four parts, and the last for an object whose
  \<^verbatim>\<open>onConfig\<close> property is present and unset. An object that has no \<^verbatim>\<open>onConfig\<close>
  property at all, such as \<^verbatim>\<open>{ onError: report }\<close>, fails the \<^verbatim>\<open>in\<close> test, is not an
  array, and so falls through to the branch for bare functions: on either
  side the object itself is registered as the success callback, its
  \<^verbatim>\<open>onError\<close> is dropped, and a real identifier is returned, not the sentinel.
\<close>

theorem object_without_onConfig_property_is_registered:
  "handleRequestInterceptor inst (Object [(''onError'', Function ''report'')]) =
     (int (length (request_chain inst)),
      inst\<lparr>request_chain := request_chain inst @
         [Some \<lparr>fulfilled = Object [(''onError'', Function ''report'')], rejected = Undefined\<rparr>]\<rparr>) \<and>
   handleResponseInterceptor inst (Object [(''onError'', Function ''report'')]) =
     (int (length (response_chain inst)),
      inst\<lparr>response_chain := response_chain inst @
         [Some \<lparr>fulfilled = Object [(''onError'', Function ''report'')], rejected = Undefined\<rparr>]\<rparr>) \<and>
   fst (handleRequestInterceptor inst (Object [(''onError'', Function ''report'')]))
     \<noteq> INVALID_INTERCEPTOR_ID \<and>
   fst (handleResponseInterceptor inst (Object [(''onError'', Function ''report'')]))
     \<noteq> INVALID_INTERCEPTOR_ID"
  by (simp add: handleRequestInterceptor_def handleResponseInterceptor_def
        request_use_appends response_use_appends INVALID_INTERCEPTOR_ID_def)

section \<open>The registry\<close>

lemma map_has_size: "map_has m n \<Longrightarrow> map_size m \<noteq> 0"
  by (cases m) (auto simp: map_has_def map_size_def)

text \<open>The branch that warns and returns asks for a name that is registered in an
  empty map, so it is never taken: a definition either leaves the trace alone
  (it threw) or logs its success.\<close>

lemma define_one_never_warns:
  "trace (snd (define_one c s)) = trace s \<or>
   trace (snd (define_one c s)) = trace s @ [ConsoleLog (name_or_default (instanceName c))]"
  using map_has_size[of "instanceMap s" "name_or_default (instanceName c)"]
  by (auto simp: define_one_def Let_def)

lemma default_registered_eq:
  "default_registered =
     \<lparr>instanceMap = [(DEFAULT_INSTANCE_NAME, create empty_config)],
      trace = [ConsoleLog DEFAULT_INSTANCE_NAME]\<rparr>"
  by (simp add: default_registered_def initial_state_def define_one_def map_has_def
        addInterceptorsToInstance_def empty_config_def create_def Let_def)

lemma guarded_registered_eq:
  "guarded_registered =
     \<lparr>instanceMap = [(DEFAULT_INSTANCE_NAME, create guarded_defaults)],
      trace = [ConsoleLog DEFAULT_INSTANCE_NAME]\<rparr>"
  by (simp add: guarded_registered_def initial_state_def define_one_def map_has_def
        addInterceptorsToInstance_def guarded_defaults_def empty_config_def create_def Let_def)

lemma named_registered_eq:
  "named_registered =
     \<lparr>instanceMap = [(DEFAULT_INSTANCE_NAME, create empty_config), (Name ''other'', create named_config)],
      trace = [ConsoleLog DEFAULT_INSTANCE_NAME, ConsoleLog (Name ''other'')]\<rparr>"
  by (simp add: named_registered_def initial_state_def define_one_def map_has_def
        addInterceptorsToInstance_def named_config_def empty_config_def create_def Let_def
        DEFAULT_INSTANCE_NAME_def)

text \<open>
  Claim C3. Once the default instance is registered, defining an unnamed
  configuration again is meant to be a no-op with a warning (the comment in
  the source: repeated definitions of the default instance are allowed, only
  the first takes effect). The code does not do that: the name is found in the
  map, the map is therefore not empty, and the call throws the
  duplicate-instance error for the default name. The registry and the trace
  are as before; no warning is printed.
\<close>

theorem second_default_definition_throws:
  assumes "map_has (instanceMap s) DEFAULT_INSTANCE_NAME" and "instanceName c = None"
  shows "defineRequestConfig (Single c) s = (Inl (InstanceExists DEFAULT_INSTANCE_NAME), s)"
  using assms map_has_size[of "instanceMap s" DEFAULT_INSTANCE_NAME]
  by (simp add: define_one_def)

theorem second_default_definition_throws_witness:
  "map_has (instanceMap default_registered) DEFAULT_INSTANCE_NAME \<and>
   instanceName empty_config = None \<and>
   defineRequestConfig (Single empty_config) default_registered
     = (Inl (InstanceExists DEFAULT_INSTANCE_NAME), default_registered)"
proof -
  have 1: "map_has (instanceMap default_registered) DEFAULT_INSTANCE_NAME"
    by (simp add: default_registered_eq map_has_def)
  have 2: "instanceName empty_config = None"
    by (simp add: empty_config_def)
  from 1 2 second_default_definition_throws[OF 1 2] show ?thesis by simp
qed

text \<open>
  Claim C8. When an instance is registered under a name, defining a
  configuration that bears this name throws the duplicate-instance error and
  leaves the registry (and the trace) exactly as it was. The same holds when
  the configuration comes first in an array: the loop stops there.
\<close>

theorem duplicate_name_rejected:
  assumes "map_has (instanceMap s) n" and "instanceName c = Some n"
  shows "defineRequestConfig (Single c) s = (Inl (InstanceExists n), s) \<and>
         defineRequestConfig (Several (c # cs)) s = (Inl (InstanceExists n), s)"
  using assms map_has_size[of "instanceMap s" n]
  by (simp add: define_one_def)

theorem duplicate_name_rejected_witness:
  "map_has (instanceMap named_registered) (Name ''other'') \<and>
   instanceName named_config = Some (Name ''other'') \<and>
   defineRequestConfig (Single named_config) named_registered
     = (Inl (InstanceExists (Name ''other'')), named_registered) \<and>
   defineRequestConfig (Several [named_config, empty_config]) named_registered
     = (Inl (InstanceExists (Name ''other'')), named_registered)"
proof -
  have 1: "map_has (instanceMap named_registered) (Name ''other'')"
    by (simp add: named_registered_eq map_has_def DEFAULT_INSTANCE_NAME_def)
  have 2: "instanceName named_config = Some (Name ''other'')"
    by (simp add: named_config_def)
  from 1 2 duplicate_name_rejected[OF 1 2, of "[empty_config]"] show ?thesis by simp
qed

text \<open>
  Claim C9. With a default instance registered, defining an unnamed
  configuration is to fail with the error that asks for an \<^verbatim>\<open>instanceName\<close>;
  the source has a test for exactly this (no name given and the default
  exists) and a comment that says so. The code does not get there: an absent
  name resolves to the default name, the same-name check that comes first
  finds it in the map, and the duplicate-instance error is thrown instead.
\<close>

theorem unnamed_after_default_is_duplicate:
  "map_has (instanceMap default_registered) DEFAULT_INSTANCE_NAME \<and>
   instanceName empty_config = None \<and>
   fst (defineRequestConfig (Single empty_config) default_registered)
     = Inl (InstanceExists DEFAULT_INSTANCE_NAME) \<and>
   fst (defineRequestConfig (Single empty_config) default_registered) \<noteq> Inl DefaultExists"
  by (simp add: default_registered_eq map_has_def define_one_def map_size_def empty_config_def)

text \<open>The test for the name-required error is dead for every configuration
  without a name: the only one that reaches it carries the empty string.\<close>

lemma name_required_error_iff:
  "defineRequestConfig (Single c) s = (Inl DefaultExists, s') \<longleftrightarrow>
     (s' = s \<and> instanceName c = Some (Name []) \<and> \<not> map_has (instanceMap s) (Name [])
      \<and> map_has (instanceMap s) DEFAULT_INSTANCE_NAME)"
  apply (cases "instanceName c" rule: name_truthy.cases)
  using map_has_size[of "instanceMap s"]
  by (auto simp: define_one_def Let_def)

section \<open>The one-shot attach and its cleanup\<close>

lemma grows_refl: "grows base base []"
  by (simp add: grows_def)

lemma grows_snoc:
  "grows base hs ids \<Longrightarrow> grows base (hs @ [Some h]) (ids @ [int (length hs)])"
  unfolding grows_def by (auto simp: upt_Suc_append simp del: upt_Suc)

lemma request_use_grow:
  "\<exists>h. request_use f r inst =
      (int (length (request_chain inst)), inst\<lparr>request_chain := request_chain inst @ [Some h]\<rparr>)"
  by (rule exI[of _ "\<lparr>fulfilled = f, rejected = r\<rparr>"]) (simp add: request_use_appends)

lemma response_use_grow:
  "\<exists>h. response_use f r inst =
      (int (length (response_chain inst)), inst\<lparr>response_chain := response_chain inst @ [Some h]\<rparr>)"
  by (rule exI[of _ "\<lparr>fulfilled = f, rejected = r\<rparr>"]) (simp add: response_use_appends)

text \<open>Whatever the declaration, the normalizer either registers nothing and
  returns the sentinel, or appends one entry and returns its position.\<close>

lemma handleRequestInterceptor_cases:
  "handleRequestInterceptor inst x = (INVALID_INTERCEPTOR_ID, inst) \<or>
   (\<exists>h. handleRequestInterceptor inst x =
      (int (length (request_chain inst)), inst\<lparr>request_chain := request_chain inst @ [Some h]\<rparr>))"
  unfolding handleRequestInterceptor_def Let_def
  using request_use_grow by presburger

lemma handleResponseInterceptor_cases:
  "handleResponseInterceptor inst x = (INVALID_INTERCEPTOR_ID, inst) \<or>
   (\<exists>h. handleResponseInterceptor inst x =
      (int (length (response_chain inst)), inst\<lparr>response_chain := response_chain inst @ [Some h]\<rparr>))"
  unfolding handleResponseInterceptor_def Let_def
  using response_use_grow by presburger

lemma position_not_sentinel: "int n \<noteq> INVALID_INTERCEPTOR_ID"
  by (simp add: INVALID_INTERCEPTOR_ID_def)

lemma ephemeral_attach_request:
  assumes "ephemeral b st"
  shows "ephemeral b (attach_request True st x)"
proof -
  obtain inst rq rs where st: "st = (inst, rq, rs)"
    by (cases st) auto
  from handleRequestInterceptor_cases[of inst x] show ?thesis
  proof
    assume "handleRequestInterceptor inst x = (INVALID_INTERCEPTOR_ID, inst)"
    with assms st show ?thesis
      by (simp add: attach_request_def ephemeral_def)
  next
    assume "\<exists>h. handleRequestInterceptor inst x =
      (int (length (request_chain inst)), inst\<lparr>request_chain := request_chain inst @ [Some h]\<rparr>)"
    then obtain h where "handleRequestInterceptor inst x =
      (int (length (request_chain inst)), inst\<lparr>request_chain := request_chain inst @ [Some h]\<rparr>)" ..
    with assms st show ?thesis
      by (simp add: attach_request_def ephemeral_def position_not_sentinel grows_snoc)
  qed
qed

lemma ephemeral_attach_response:
  assumes "ephemeral b st"
  shows "ephemeral b (attach_response True st x)"
proof -
  obtain inst rq rs where st: "st = (inst, rq, rs)"
    by (cases st) auto
  from handleResponseInterceptor_cases[of inst x] show ?thesis
  proof
    assume "handleResponseInterceptor inst x = (INVALID_INTERCEPTOR_ID, inst)"
    with assms st show ?thesis
      by (simp add: attach_response_def ephemeral_def)
  next
    assume "\<exists>h. handleResponseInterceptor inst x =
      (int (length (response_chain inst)), inst\<lparr>response_chain := response_chain inst @ [Some h]\<rparr>)"
    then obtain h where "handleResponseInterceptor inst x =
      (int (length (response_chain inst)), inst\<lparr>response_chain := response_chain inst @ [Some h]\<rparr>)" ..
    with assms st show ?thesis
      by (simp add: attach_response_def ephemeral_def position_not_sentinel grows_snoc)
  qed
qed

lemma ephemeral_foldl_request:
  "ephemeral b st \<Longrightarrow> ephemeral b (foldl (attach_request True) st xs)"
  by (induction xs arbitrary: st) (simp_all add: ephemeral_attach_request)

lemma ephemeral_foldl_response:
  "ephemeral b st \<Longrightarrow> ephemeral b (foldl (attach_response True) st xs)"
  by (induction xs arbitrary: st) (simp_all add: ephemeral_attach_response)

lemma ephemeral_nested:
  "ephemeral b st \<Longrightarrow> ephemeral b (attach_nested True ics st)"
  by (simp add: attach_nested_def Let_def ephemeral_foldl_request ephemeral_foldl_response)

lemma ephemeral_start: "ephemeral b (b, [], [])"
  by (simp add: ephemeral_def grows_refl)

text \<open>In ephemeral mode every entry the attach adds is captured: the chains
  grow by filled slots, and the two lists hold exactly their positions.\<close>

lemma addInterceptorsToInstance_ephemeral:
  assumes "addInterceptorsToInstance b c True = ((rq, rs), inst)"
  shows "ephemeral b (inst, rq, rs)"
proof -
  define s1 where "s1 = (case interceptors c of None \<Rightarrow> (b, [], [])
                         | Some ics \<Rightarrow> attach_nested True ics (b, [], []))"
  define s2 where "s2 = (case requestInterceptors c of None \<Rightarrow> s1
                         | Some xs \<Rightarrow> foldl (attach_request True) s1 xs)"
  define s3 where "s3 = (case responseInterceptors c of None \<Rightarrow> s2
                         | Some xs \<Rightarrow> foldl (attach_response True) s2 xs)"
  have 1: "ephemeral b s1"
    unfolding s1_def by (simp add: ephemeral_start ephemeral_nested split: option.split)
  have 2: "ephemeral b s2"
    unfolding s2_def using 1 by (simp add: ephemeral_foldl_request split: option.split)
  have 3: "ephemeral b s3"
    unfolding s3_def using 2 by (simp add: ephemeral_foldl_response split: option.split)
  have "s3 = (inst, rq, rs)"
    using assms unfolding addInterceptorsToInstance_def Let_def s3_def s2_def s1_def
    by (auto split: prod.splits)
  with 3 show ?thesis by simp
qed

text \<open>Ejecting the captured positions one after the other empties exactly the
  added slots.\<close>

lemma eject_all:
  "None \<notin> set xs \<Longrightarrow>
   foldl (\<lambda>hs i. eject i hs) (base @ xs) (map int [length base ..< length base + length xs])
     = base @ replicate (length xs) None"
proof (induction xs arbitrary: base)
  case Nil
  then show ?case by simp
next
  case (Cons x xs)
  have e: "eject (int (length base)) (base @ x # xs) = (base @ [None]) @ xs"
    using Cons.prems by (simp add: eject_def nth_append list_update_append)
  have u: "[length base ..< length base + length (x # xs)]
            = length base # [length (base @ [None]) ..< length (base @ [None]) + length xs]"
    using upt_rec[of "length base" "length base + length (x # xs)"] by (simp del: upt_Suc)
  show ?case
    unfolding u using Cons.IH[of "base @ [None]"] Cons.prems
    by (simp add: e replicate_app_Cons_same del: upt_Suc)
qed

lemma active_padded: "active (base @ replicate k None) = active base"
  by (simp add: active_def enumerate_append_eq enumerate_replicate_eq filter_empty_conv)

lemma grows_eject:
  "grows base hs ids \<Longrightarrow> active (foldl (\<lambda>hs i. eject i hs) hs ids) = active base"
  unfolding grows_def by (auto simp: eject_all active_padded)

lemma foldl_request_eject:
  "foldl request_eject inst ids =
     inst\<lparr>request_chain := foldl (\<lambda>hs i. eject i hs) (request_chain inst) ids\<rparr>"
  by (induction ids arbitrary: inst) (simp_all add: request_eject_def)

lemma foldl_response_eject:
  "foldl response_eject inst ids =
     inst\<lparr>response_chain := foldl (\<lambda>hs i. eject i hs) (response_chain inst) ids\<rparr>"
  by (induction ids arbitrary: inst) (simp_all add: response_eject_def)

lemma cleanup_view:
  assumes "addInterceptorsToInstance inst mc True = ((rq, rs), inst1)"
  shows "view (foldl response_eject (foldl request_eject inst1 rq) rs) = view inst"
proof -
  from addInterceptorsToInstance_ephemeral[OF assms]
  have d: "defaults inst1 = defaults inst"
    and g1: "grows (request_chain inst) (request_chain inst1) rq"
    and g2: "grows (response_chain inst) (response_chain inst1) rs"
    by (simp_all add: ephemeral_def)
  show ?thesis
    by (simp add: view_def foldl_request_eject foldl_response_eject d
          grows_eject[OF g1] grows_eject[OF g2])
qed

section \<open>The dispatcher\<close>

lemma merged_None: "merged c None = c"
  by (simp add: merged_def)

lemma instance_defaults_map_of:
  "instance_defaults m n = map_option defaults (map_of m n)"
  by (induction m) (auto simp: instance_defaults_def)

lemma map_of_map_set:
  "map_of (map_set n v m) k = (if k = n then Some v else map_of m k)"
  by (induction m) auto

lemma map_set_view:
  "map_of m n = Some inst \<Longrightarrow> view inst' = view inst \<Longrightarrow>
   map (\<lambda>p. (fst p, view (snd p))) (map_set n inst' m) = map (\<lambda>p. (fst p, view (snd p))) m"
  by (induction m) (auto split: if_splits)

lemma found_defaults:
  "map_get m n = Some inst \<Longrightarrow> instance_defaults m n = Some (defaults inst)"
  by (simp add: instance_defaults_map_of map_get_def)

lemma not_found_defaults:
  "map_get m n = None \<Longrightarrow> instance_defaults m n = None"
  by (simp add: instance_defaults_map_of map_get_def)

lemma cleanup_defaults:
  assumes "map_get m n = Some inst" and "view inst' = view inst"
  shows "instance_defaults (map_set n inst' m) n = instance_defaults m n"
  using assms by (simp add: instance_defaults_map_of map_of_map_set map_get_def view_def)

lemma chosen_handler_eq:
  "chosen_handler c (instance_defaults (instanceMap s) (name_or_default (instanceName c))) =
     (case handler_of c of Some h \<Rightarrow> Some h | None \<Rightarrow> instance_handler c s)"
  by (simp add: chosen_handler_def instance_handler_def split: option.splits)

lemma handler_calls_ejections:
  "filter is_handler_call (map RequestEject rq) = []"
  "filter is_handler_call (map ResponseEject rs) = []"
  by (simp_all add: filter_map o_def)

subsection \<open>The \<^verbatim>\<open>catch\<close> block\<close>

lemma on_catch_eq:
  "on_catch run c err s =
     (if skipErrorHandler c = Some True then (Inl err, s)
      else case chosen_handler c
                  (instance_defaults (instanceMap s) (name_or_default (instanceName c))) of
             None \<Rightarrow> (Inl err, s)
           | Some h \<Rightarrow>
               (Inl (rethrown run h err (merged_config c s)),
                s\<lparr>trace := trace s @ [ErrorHandlerCall h err (merged_config c s)]\<rparr>))"
  by (simp add: on_catch_def call_handler_def chosen_handler_def merged_config_def rethrown_def
        Let_def split: option.splits)

lemma on_catch_instanceMap: "instanceMap (snd (on_catch run c err s)) = instanceMap s"
  by (simp add: on_catch_eq split: option.splits)

lemma on_catch_ejections:
  "filter is_ejection (trace (snd (on_catch run c err s))) = filter is_ejection (trace s)"
  by (simp add: on_catch_eq split: option.splits)

text \<open>The \<^verbatim>\<open>catch\<close> block always ends in a throw: a call that fails stays
  failed, whatever the handlers do.\<close>

lemma on_catch_fails: "\<exists>e. fst (on_catch run c err s) = Inl e"
  by (simp add: on_catch_eq split: option.splits)

subsection \<open>\<^verbatim>\<open>request\<close>, by whether the instance is found\<close>

lemma request_not_found:
  "map_get (instanceMap s) (name_or_default (instanceName c)) = None \<Longrightarrow>
   request send run c s = on_catch run c (NotFound (name_or_default (instanceName c))) s"
  by (simp add: request_def getRequestInstance_def)

lemma request_found:
  assumes "map_get (instanceMap s) (name_or_default (instanceName c)) = Some inst"
      and "addInterceptorsToInstance inst (merged_config c s) True = ((rq, rs), inst1)"
  shows "request send run c s =
     (case send inst1 (merged_config c s) of
        Inr response \<Rightarrow>
          (Inr (if withFullResponse (merged_config c s) = Some True
                then Envelope response else Payload (data response)),
           s\<lparr>instanceMap := map_set (name_or_default (instanceName c))
                 (foldl response_eject (foldl request_eject inst1 rq) rs) (instanceMap s),
             trace := trace s @ map RequestEject rq @ map ResponseEject rs\<rparr>)
      | Inl err \<Rightarrow>
          on_catch run c err
           (s\<lparr>instanceMap := map_set (name_or_default (instanceName c))
                 (foldl response_eject (foldl request_eject inst1 rq) rs) (instanceMap s),
             trace := trace s @ map RequestEject rq @ map ResponseEject rs\<rparr>))"
  using assms
  by (simp add: request_def getRequestInstance_def merged_config_def Let_def split: sum.splits)

text \<open>What \<^verbatim>\<open>request\<close> returns, and what it adds to the trace, in terms of how
  the \<^verbatim>\<open>try\<close> block ends.\<close>

lemma request_result:
  "fst (request send run c s) =
     (case attempt send c s of
        Inr response \<Rightarrow>
          Inr (if withFullResponse (merged_config c s) = Some True
               then Envelope response else Payload (data response))
      | Inl err \<Rightarrow>
          (if skipErrorHandler c = Some True then Inl err
           else case chosen_handler c
                       (instance_defaults (instanceMap s) (name_or_default (instanceName c))) of
                  None \<Rightarrow> Inl err
                | Some h \<Rightarrow> Inl (rethrown run h err (merged_config c s))))"
proof (cases "map_get (instanceMap s) (name_or_default (instanceName c))")
  case None
  then show ?thesis
    by (simp add: request_not_found on_catch_eq attempt_def one_shot_attach_def
          split: option.splits)
next
  case (Some inst)
  obtain rq rs inst1
    where a: "addInterceptorsToInstance inst (merged_config c s) True = ((rq, rs), inst1)"
    by (metis surj_pair)
  have v: "view (foldl response_eject (foldl request_eject inst1 rq) rs) = view inst"
    by (rule cleanup_view[OF a])
  have at: "attempt send c s = send inst1 (merged_config c s)"
    using Some a by (simp add: attempt_def one_shot_attach_def)
  show ?thesis
    unfolding request_found[OF Some a] at
    by (cases "send inst1 (merged_config c s)")
       (simp_all add: on_catch_eq merged_config_def cleanup_defaults[OF Some v]
          split: option.splits)
qed

lemma request_trace:
  "trace (snd (request send run c s)) =
     trace s @ map RequestEject (fst (fst (one_shot_attach c s)))
             @ map ResponseEject (snd (fst (one_shot_attach c s)))
             @ (case attempt send c s of
                  Inr response \<Rightarrow> []
                | Inl err \<Rightarrow>
                   (if skipErrorHandler c = Some True then []
                    else case chosen_handler c
                                (instance_defaults (instanceMap s)
                                   (name_or_default (instanceName c))) of
                           None \<Rightarrow> []
                         | Some h \<Rightarrow> [ErrorHandlerCall h err (merged_config c s)]))"
proof (cases "map_get (instanceMap s) (name_or_default (instanceName c))")
  case None
  then show ?thesis
    by (simp add: request_not_found on_catch_eq attempt_def one_shot_attach_def
          split: option.splits)
next
  case (Some inst)
  obtain rq rs inst1
    where a: "addInterceptorsToInstance inst (merged_config c s) True = ((rq, rs), inst1)"
    by (metis surj_pair)
  have v: "view (foldl response_eject (foldl request_eject inst1 rq) rs) = view inst"
    by (rule cleanup_view[OF a])
  have at: "attempt send c s = send inst1 (merged_config c s)"
    using Some a by (simp add: attempt_def one_shot_attach_def)
  have os: "one_shot_attach c s = ((rq, rs), Some inst1)"
    using Some a by (simp add: one_shot_attach_def)
  show ?thesis
    unfolding request_found[OF Some a] at os
    by (cases "send inst1 (merged_config c s)")
       (simp_all add: on_catch_eq merged_config_def cleanup_defaults[OF Some v]
          split: option.splits)
qed

text \<open>\<^verbatim>\<open>request\<close> is its two steps run back to back, with the underlying call
  settling in between and nothing else happening.\<close>

lemma map_set_twice: "map_set n x (map_set n y m) = map_set n x m"
  by (induction m) auto

lemma map_get_map_set: "map_get (map_set n v m) n = Some v"
  by (simp add: map_get_def map_of_map_set)

lemma request_start_not_found:
  "map_get (instanceMap s) (name_or_default (instanceName c)) = None \<Longrightarrow>
   request_start run c s =
     (Settled (fst (on_catch run c (NotFound (name_or_default (instanceName c))) s)),
      snd (on_catch run c (NotFound (name_or_default (instanceName c))) s))"
  by (simp add: request_start_def getRequestInstance_def split: prod.splits)

lemma request_start_found:
  assumes "map_get (instanceMap s) (name_or_default (instanceName c)) = Some inst"
      and "addInterceptorsToInstance inst (merged_config c s) True = ((rq, rs), inst1)"
  shows "request_start run c s =
     (Awaiting \<lparr>pending_name = name_or_default (instanceName c),
                pending_config = merged_config c s,
                pending_instance = inst1, pending_requestIds = rq,
                pending_responseIds = rs\<rparr>,
      s\<lparr>instanceMap := map_set (name_or_default (instanceName c)) inst1 (instanceMap s)\<rparr>)"
  using assms
  by (simp add: request_start_def getRequestInstance_def merged_config_def Let_def)

lemma request_settle_found:
  assumes "map_get (instanceMap s) (pending_name p) = Some inst"
  shows "request_settle run c p outcome s =
     (case outcome of
        Inr response \<Rightarrow>
          (Inr (if withFullResponse (pending_config p) = Some True
                then Envelope response else Payload (data response)),
           s\<lparr>instanceMap := map_set (pending_name p)
                 (foldl response_eject (foldl request_eject inst (pending_requestIds p))
                    (pending_responseIds p)) (instanceMap s),
             trace := trace s @ map RequestEject (pending_requestIds p)
                              @ map ResponseEject (pending_responseIds p)\<rparr>)
      | Inl err \<Rightarrow>
          on_catch run c err
           (s\<lparr>instanceMap := map_set (pending_name p)
                 (foldl response_eject (foldl request_eject inst (pending_requestIds p))
                    (pending_responseIds p)) (instanceMap s),
             trace := trace s @ map RequestEject (pending_requestIds p)
                              @ map ResponseEject (pending_responseIds p)\<rparr>))"
  using assms by (simp add: request_settle_def Let_def)

lemma request_in_two_steps:
  "request send run c s =
     (case request_start run c s of
        (Settled r, s1) \<Rightarrow> (r, s1)
      | (Awaiting p, s1) \<Rightarrow>
          request_settle run c p (send (pending_instance p) (pending_config p)) s1)"
proof (cases "map_get (instanceMap s) (name_or_default (instanceName c))")
  case None
  then show ?thesis
    by (simp add: request_not_found request_start_not_found)
next
  case (Some inst)
  obtain rq rs inst1
    where a: "addInterceptorsToInstance inst (merged_config c s) True = ((rq, rs), inst1)"
    by (metis surj_pair)
  have g: "map_get (instanceMap (s\<lparr>instanceMap :=
               map_set (name_or_default (instanceName c)) inst1 (instanceMap s)\<rparr>))
             (pending_name \<lparr>pending_name = name_or_default (instanceName c),
                pending_config = merged_config c s,
                pending_instance = inst1, pending_requestIds = rq,
                pending_responseIds = rs\<rparr>) = Some inst1"
    by (simp add: map_get_map_set)
  show ?thesis
    unfolding request_found[OF Some a] request_start_found[OF Some a]
    by (simp add: request_settle_found[OF g] map_set_twice split: sum.splits)
qed

text \<open>A call leaves every instance of the registry as it found it: same names,
  same defaults, same interceptors under the same identifiers.\<close>

lemma request_frame: "registry_view (snd (request send run c s)) = registry_view s"
proof (cases "map_get (instanceMap s) (name_or_default (instanceName c))")
  case None
  then show ?thesis
    by (simp add: request_not_found registry_view_def on_catch_instanceMap)
next
  case (Some inst)
  obtain rq rs inst1
    where a: "addInterceptorsToInstance inst (merged_config c s) True = ((rq, rs), inst1)"
    by (metis surj_pair)
  have v: "view (foldl response_eject (foldl request_eject inst1 rq) rs) = view inst"
    by (rule cleanup_view[OF a])
  have m: "map_of (instanceMap s) (name_or_default (instanceName c)) = Some inst"
    using Some by (simp add: map_get_def)
  show ?thesis
    unfolding request_found[OF Some a]
    by (cases "send inst1 (merged_config c s)")
       (simp_all add: registry_view_def on_catch_instanceMap map_set_view[OF m v])
qed

lemma requests_frame: "registry_view (requests send run cs s) = registry_view s"
  unfolding requests_def
  by (induction cs arbitrary: s) (simp_all add: request_frame)

lemma map_of_views:
  "map_of (map (\<lambda>p. (fst p, view (snd p))) m) n = map_option view (map_of m n)"
  by (induction m) auto

lemma registry_view_lookup:
  "map_of (registry_view s) n = map_option view (map_get (instanceMap s) n)"
  by (simp add: registry_view_def map_get_def map_of_views)

text \<open>From registration on: the instance that \<^verbatim>\<open>defineRequestConfig\<close> stores holds
  the interceptors of its configuration, attached in non-ephemeral mode, and
  after any number of calls it holds exactly these.\<close>

lemma permanent_interceptors_survive:
  assumes "defineRequestConfig (Single c) s = (Inr (), s1)"
  shows "map_option view
           (map_get (instanceMap (requests send run cs s1)) (name_or_default (instanceName c)))
         = Some (view (snd (addInterceptorsToInstance (create c) c False)))"
proof -
  have "map_get (instanceMap s1) (name_or_default (instanceName c))
          = Some (snd (addInterceptorsToInstance (create c) c False))"
    using assms map_has_size[of "instanceMap s" "name_or_default (instanceName c)"]
    by (auto simp: define_one_def Let_def map_get_def map_of_map_set split: if_splits)
  then have "map_of (registry_view s1) (name_or_default (instanceName c))
          = Some (view (snd (addInterceptorsToInstance (create c) c False)))"
    by (simp add: registry_view_lookup)
  then show ?thesis
    by (simp add: registry_view_lookup[symmetric] requests_frame)
qed

section \<open>The claims about \<^verbatim>\<open>request\<close>\<close>

subsection \<open>Example calls\<close>

lemma unnamed_examples:
  "instanceName empty_config = None"
  "instanceName observed_config = None"
  "instanceName skipping_config = None"
  "instanceName unobserved_config = None"
  by (simp_all add: empty_config_def observed_config_def skipping_config_def
        unobserved_config_def)

lemma one_shot_example:
  "one_shot_attach one_shot_config guarded_registered =
     (([0], [0]),
      Some \<lparr>defaults = guarded_defaults,
            request_chain = [Some \<lparr>fulfilled = Function ''addToken'', rejected = Undefined\<rparr>],
            response_chain =
              [Some \<lparr>fulfilled = Function ''unwrap'', rejected = Function ''onError''\<rparr>]\<rparr>)"
  by (simp add: one_shot_attach_def guarded_registered_eq map_get_def one_shot_config_def
        observed_config_def empty_config_def DEFAULT_INSTANCE_NAME_def
        addInterceptorsToInstance_def attach_nested_def attach_request_def attach_response_def
        handleRequestInterceptor_def handleResponseInterceptor_def request_use_def
        response_use_def use_def create_def INVALID_INTERCEPTOR_ID_def merged_config_def
        merged_def Let_def)

lemma attempt_failing_example:
  "attempt failing_transport c guarded_registered =
     (if name_or_default (instanceName c) = DEFAULT_INSTANCE_NAME
      then Inl (Thrown ''Network Error'')
      else Inl (NotFound (name_or_default (instanceName c))))"
  by (simp add: attempt_def one_shot_attach_def guarded_registered_eq map_get_def
        failing_transport_def split: prod.splits)

lemma attempt_ok_example:
  "attempt ok_transport c guarded_registered =
     (if name_or_default (instanceName c) = DEFAULT_INSTANCE_NAME
      then Inr \<lparr>status = 200, headers = [], data = ''payload''\<rparr>
      else Inl (NotFound (name_or_default (instanceName c))))"
  by (simp add: attempt_def one_shot_attach_def guarded_registered_eq map_get_def
        ok_transport_def split: prod.splits)

lemma merged_observed:
  "merged_config observed_config guarded_registered
     = observed_config\<lparr>withFullResponse := Some True\<rparr>"
  by (simp add: merged_config_def merged_def guarded_registered_eq instance_defaults_def
        observed_config_def empty_config_def create_def guarded_defaults_def)

lemma merged_unobserved:
  "merged_config unobserved_config guarded_registered
     = unobserved_config\<lparr>withFullResponse := Some True\<rparr>"
  by (simp add: merged_config_def merged_def guarded_registered_eq instance_defaults_def
        unobserved_config_def empty_config_def create_def guarded_defaults_def)

lemma no_calls_yet: "filter is_handler_call (trace guarded_registered) = []"
  by (simp add: guarded_registered_eq)

subsection \<open>Cleanup of the one-shot interceptors\<close>

text \<open>A call run with nothing in between leaves every instance as it found it,
  and ejects what its attach captured, the request side first.\<close>

lemma request_restores_chains:
  "registry_view (snd (request send run c s)) = registry_view s \<and>
   filter is_ejection (trace (snd (request send run c s))) =
     filter is_ejection (trace s)
       @ map RequestEject (fst (fst (one_shot_attach c s)))
       @ map ResponseEject (snd (fst (one_shot_attach c s)))"
proof -
  have f: "filter is_ejection (map RequestEject rq) = map RequestEject rq"
          "filter is_ejection (map ResponseEject rs) = map ResponseEject rs" for rq rs
    by (simp_all add: filter_map o_def)
  have "filter is_ejection (trace (snd (request send run c s))) =
     filter is_ejection (trace s)
       @ map RequestEject (fst (fst (one_shot_attach c s)))
       @ map ResponseEject (snd (fst (one_shot_attach c s)))"
    by (simp add: request_trace f split: sum.splits option.splits)
  then show ?thesis
    by (simp add: request_frame)
qed

lemma earlier_started_eq:
  "earlier_started =
     \<lparr>instanceMap =
        [(DEFAULT_INSTANCE_NAME,
          \<lparr>defaults = guarded_defaults,
           request_chain = [Some \<lparr>fulfilled = Function ''traceId'', rejected = Undefined\<rparr>],
           response_chain = []\<rparr>)],
      trace = [ConsoleLog DEFAULT_INSTANCE_NAME]\<rparr>"
  by (simp add: earlier_started_def request_start_def getRequestInstance_def
        guarded_registered_eq map_get_def earlier_config_def empty_config_def
        addInterceptorsToInstance_def attach_request_def handleRequestInterceptor_def
        request_use_def use_def create_def INVALID_INTERCEPTOR_ID_def instance_defaults_def
        merged_def Let_def)

lemma later_start_eq:
  "request_start quiet_handlers one_shot_config earlier_started =
     (Awaiting later_pending,
      \<lparr>instanceMap = [(DEFAULT_INSTANCE_NAME, pending_instance later_pending)],
       trace = [ConsoleLog DEFAULT_INSTANCE_NAME]\<rparr>)"
  by (simp add: earlier_started_eq request_start_def getRequestInstance_def map_get_def
        one_shot_config_def observed_config_def empty_config_def DEFAULT_INSTANCE_NAME_def
        addInterceptorsToInstance_def attach_nested_def attach_request_def attach_response_def
        handleRequestInterceptor_def handleResponseInterceptor_def request_use_def
        response_use_def use_def INVALID_INTERCEPTOR_ID_def instance_defaults_def
        merged_def guarded_defaults_def later_pending_def Let_def)

lemma one_shot_start_eq:
  "request_start quiet_handlers one_shot_config guarded_registered
     = (Awaiting one_shot_pending, one_shot_started)"
  by (simp add: guarded_registered_eq request_start_def getRequestInstance_def map_get_def
        one_shot_config_def observed_config_def empty_config_def DEFAULT_INSTANCE_NAME_def
        addInterceptorsToInstance_def attach_nested_def attach_request_def attach_response_def
        handleRequestInterceptor_def handleResponseInterceptor_def request_use_def
        response_use_def use_def INVALID_INTERCEPTOR_ID_def instance_defaults_def create_def
        merged_def guarded_defaults_def one_shot_pending_def one_shot_started_def Let_def)

text \<open>
  Claim C1, as stated: after every completed call the chains of the target
  instance hold exactly the permanent interceptors. A call ejects its own
  identifiers only, and another call may be in flight on the same instance.
  Here an earlier call with a one-shot request interceptor has started on the
  default instance, which was registered with no interceptors; the call of
  \<open>one_shot_config\<close> then starts, its underlying call resolves, and it
  completes. The request chain still holds the earlier call's interceptor.
\<close>

theorem overlapping_call_leaves_one_shot:
  "registry_view guarded_registered = [(DEFAULT_INSTANCE_NAME, guarded_defaults, [], [])] \<and>
   fst (request_start quiet_handlers one_shot_config earlier_started) = Awaiting later_pending \<and>
   registry_view
     (snd (request_settle quiet_handlers one_shot_config later_pending
             (ok_transport (pending_instance later_pending) (pending_config later_pending))
             (snd (request_start quiet_handlers one_shot_config earlier_started))))
     = [(DEFAULT_INSTANCE_NAME, guarded_defaults,
         [(0, Some \<lparr>fulfilled = Function ''traceId'', rejected = Undefined\<rparr>)], [])]"
  by (simp add: later_start_eq)
     (simp add: registry_view_def guarded_registered_eq view_def create_def active_def
        request_settle_def later_pending_def map_get_def ok_transport_def
        request_eject_def response_eject_def eject_def Let_def)

text \<open>
  Claim C1, amended. For a call through \<^verbatim>\<open>request\<close> during which no other call
  attaches or ejects on the registry's instances between the call's attach and
  its cleanup, whether the underlying call resolves or rejects: afterwards
  every instance has the defaults and, on both chains, exactly the
  interceptors it had before the call, under the same identifiers. The
  cleanup ejects every identifier the attach captured, the request-side ones
  first and then the response-side ones. \<^verbatim>\<open>request\<close> run on its own is such a
  call.
\<close>

theorem one_shot_cleanup_without_overlap:
  assumes "request_start run c s = (Awaiting p, s1)"
      and "instanceMap s2 = instanceMap s1"
  shows "registry_view (snd (request_settle run c p outcome s2)) = registry_view s \<and>
         filter is_ejection (trace (snd (request_settle run c p outcome s2))) =
           filter is_ejection (trace s2)
             @ map RequestEject (fst (fst (one_shot_attach c s)))
             @ map ResponseEject (snd (fst (one_shot_attach c s))) \<and>
         request send run c s =
           request_settle run c p (send (pending_instance p) (pending_config p)) s1"
proof (cases "map_get (instanceMap s) (name_or_default (instanceName c))")
  case None
  with assms(1) show ?thesis
    by (simp add: request_start_not_found)
next
  case (Some inst)
  obtain rq rs inst1
    where a: "addInterceptorsToInstance inst (merged_config c s) True = ((rq, rs), inst1)"
    by (metis surj_pair)
  have p: "p = \<lparr>pending_name = name_or_default (instanceName c),
                pending_config = merged_config c s,
                pending_instance = inst1, pending_requestIds = rq,
                pending_responseIds = rs\<rparr>"
    and s1: "s1 = s\<lparr>instanceMap := map_set (name_or_default (instanceName c)) inst1 (instanceMap s)\<rparr>"
    using assms(1) unfolding request_start_found[OF Some a] by simp_all
  have v: "view (foldl response_eject (foldl request_eject inst1 rq) rs) = view inst"
    by (rule cleanup_view[OF a])
  have m: "map_of (instanceMap s) (name_or_default (instanceName c)) = Some inst"
    using Some by (simp add: map_get_def)
  have os: "one_shot_attach c s = ((rq, rs), Some inst1)"
    using Some a by (simp add: one_shot_attach_def)
  have f: "filter is_ejection (map RequestEject rq) = map RequestEject rq"
          "filter is_ejection (map ResponseEject rs) = map ResponseEject rs"
    by (simp_all add: filter_map o_def)
  have g: "map_get (instanceMap s2) (pending_name p) = Some inst1"
    by (simp add: assms(2) s1 p map_get_map_set)
  have 1: "registry_view (snd (request_settle run c p outcome s2)) = registry_view s"
    unfolding request_settle_found[OF g]
    by (cases outcome)
       (simp_all add: p assms(2) s1 map_set_twice
          registry_view_def on_catch_instanceMap map_set_view[OF m v])
  have 2: "filter is_ejection (trace (snd (request_settle run c p outcome s2))) =
           filter is_ejection (trace s2) @ map RequestEject rq @ map ResponseEject rs"
    unfolding request_settle_found[OF g]
    by (cases outcome)
       (simp_all add: p on_catch_ejections f)
  have 3: "request send run c s =
           request_settle run c p (send (pending_instance p) (pending_config p)) s1"
    by (subst request_in_two_steps) (simp add: assms(1))
  from 1 2 3 show ?thesis
    by (simp add: os)
qed

theorem one_shot_cleanup_without_overlap_witness:
  "request_start quiet_handlers one_shot_config guarded_registered
     = (Awaiting one_shot_pending, one_shot_started) \<and>
   registry_view
     (snd (request_settle quiet_handlers one_shot_config one_shot_pending
             (Inl (Thrown ''Network Error'')) one_shot_started))
     = [(DEFAULT_INSTANCE_NAME, guarded_defaults, [], [])] \<and>
   filter is_ejection
     (trace (snd (request_settle quiet_handlers one_shot_config one_shot_pending
                    (Inl (Thrown ''Network Error'')) one_shot_started)))
     = [RequestEject 0, ResponseEject 0] \<and>
   registry_view
     (snd (request ok_transport quiet_handlers one_shot_config guarded_registered))
     = [(DEFAULT_INSTANCE_NAME, guarded_defaults, [], [])]"
proof -
  have t: "filter is_ejection (trace one_shot_started) = []"
    by (simp add: one_shot_started_def)
  have g: "registry_view guarded_registered = [(DEFAULT_INSTANCE_NAME, guarded_defaults, [], [])]"
    by (simp add: registry_view_def guarded_registered_eq view_def create_def active_def)
  from one_shot_cleanup_without_overlap[OF one_shot_start_eq refl,
         of "Inl (Thrown ''Network Error'')" failing_transport]
       one_shot_cleanup_without_overlap[OF one_shot_start_eq refl,
         of "ok_transport (pending_instance one_shot_pending) (pending_config one_shot_pending)"
            ok_transport]
  show ?thesis
    by (simp add: one_shot_start_eq one_shot_example t g)
qed

subsection \<open>An instance that is not registered\<close>

text \<open>
  Claim C2, as stated: the not-found error reaches the caller before any
  error-handling policy applies, and no error handler is ever called with it.
  The lookup is inside the \<^verbatim>\<open>try\<close> block, so the error goes through the same
  \<^verbatim>\<open>catch\<close> block as any other: on an empty registry, a call whose
  configuration has an \<^verbatim>\<open>errorHandler\<close> gets this handler called with the
  not-found error.
\<close>

theorem not_found_reaches_call_handler:
  "\<not> map_has (instanceMap initial_state) (name_or_default (instanceName observed_config)) \<and>
   request failing_transport quiet_handlers observed_config initial_state =
     (Inl (NotFound DEFAULT_INSTANCE_NAME),
      initial_state\<lparr>trace :=
        [ErrorHandlerCall ''onCallError'' (NotFound DEFAULT_INSTANCE_NAME) observed_config]\<rparr>)"
  by (simp add: request_def getRequestInstance_def map_get_def map_has_def initial_state_def
        on_catch_def call_handler_def handler_of_def observed_config_def empty_config_def
        instance_defaults_def merged_def quiet_handlers_def Let_def)

text \<open>
  Claim C2, amended. When the resolved name is not registered, the not-found
  error is raised before any instance is touched or anything is sent, and no
  instance-level handler is called (there is no instance to take it from).
  With \<^verbatim>\<open>skipErrorHandler\<close> true, or with no call-level \<^verbatim>\<open>errorHandler\<close>, the
  error reaches the caller and nothing else happens. Otherwise the call-level
  \<^verbatim>\<open>errorHandler\<close> is called once, with the not-found error and the call's
  configuration, and the error is thrown again afterwards (or the handler's
  own error, if it throws).
\<close>

theorem not_found_policy:
  assumes "\<not> map_has (instanceMap s) (name_or_default (instanceName c))"
  shows "request send run c s =
     (if skipErrorHandler c = Some True
      then (Inl (NotFound (name_or_default (instanceName c))), s)
      else case handler_of c of
             None \<Rightarrow> (Inl (NotFound (name_or_default (instanceName c))), s)
           | Some h \<Rightarrow>
               (Inl (rethrown run h (NotFound (name_or_default (instanceName c))) c),
                s\<lparr>trace := trace s @
                     [ErrorHandlerCall h (NotFound (name_or_default (instanceName c))) c]\<rparr>))"
proof -
  have n: "map_get (instanceMap s) (name_or_default (instanceName c)) = None"
    using assms by (simp add: map_has_def map_get_def)
  show ?thesis
    by (simp add: request_not_found[OF n] on_catch_eq not_found_defaults[OF n]
          chosen_handler_def merged_config_def merged_None split: option.splits)
qed

theorem not_found_policy_witness:
  "\<not> map_has (instanceMap initial_state) (name_or_default (instanceName skipping_config)) \<and>
   request ok_transport quiet_handlers skipping_config initial_state
     = (Inl (NotFound DEFAULT_INSTANCE_NAME), initial_state) \<and>
   request ok_transport quiet_handlers empty_config initial_state
     = (Inl (NotFound DEFAULT_INSTANCE_NAME), initial_state) \<and>
   fst (request ok_transport throwing_handlers observed_config initial_state)
     = Inl (Thrown ''handler failed'')"
proof -
  have 1: "\<not> map_has (instanceMap initial_state) (name_or_default (instanceName c))"
    for c :: config
    by (simp add: initial_state_def map_has_def)
  have 2: "skipErrorHandler skipping_config = Some True"
          "skipErrorHandler empty_config = None" "handler_of empty_config = None"
          "skipErrorHandler observed_config = None"
          "handler_of observed_config = Some ''onCallError''"
    by (simp_all add: skipping_config_def observed_config_def empty_config_def handler_of_def)
  from not_found_policy[OF 1, of ok_transport quiet_handlers skipping_config]
       not_found_policy[OF 1, of ok_transport quiet_handlers empty_config]
       not_found_policy[OF 1, of ok_transport throwing_handlers observed_config]
       1[of skipping_config]
  show ?thesis
    by (simp add: 2 unnamed_examples rethrown_def throwing_handlers_def)
qed

subsection \<open>The full response flag\<close>

text \<open>
  Claim C4. A call that succeeds returns the full response envelope when the
  resolved \<^verbatim>\<open>withFullResponse\<close> flag is true and \<^verbatim>\<open>response.data\<close> otherwise, where
  the flag is the call's own when the call defines it, and the one of the
  instance's registered defaults when it does not (false when neither is set).
\<close>

theorem withFullResponse_resolution:
  assumes "map_get (instanceMap s) (name_or_default (instanceName c)) = Some inst"
      and "attempt send c s = Inr resp"
  shows "fst (request send run c s) =
           Inr (if (case withFullResponse c of
                      Some flag \<Rightarrow> flag
                    | None \<Rightarrow> withFullResponse (defaults inst) = Some True)
                then Envelope resp else Payload (data resp))"
proof -
  have "fst (request send run c s) =
          Inr (if withFullResponse (merged_config c s) = Some True
               then Envelope resp else Payload (data resp))"
    by (simp add: request_result assms(2))
  moreover have "withFullResponse (merged_config c s) =
      (case withFullResponse c of
         Some flag \<Rightarrow> Some flag
       | None \<Rightarrow> withFullResponse (defaults inst))"
    by (simp add: merged_config_def merged_def found_defaults[OF assms(1)] split: option.splits)
  ultimately show ?thesis
    by (simp split: option.splits)
qed

theorem withFullResponse_resolution_witness:
  "fst (request ok_transport quiet_handlers empty_config guarded_registered)
     = Inr (Envelope \<lparr>status = 200, headers = [], data = ''payload''\<rparr>) \<and>
   fst (request ok_transport quiet_handlers unobserved_config guarded_registered)
     = Inr (Envelope \<lparr>status = 200, headers = [], data = ''payload''\<rparr>) \<and>
   fst (request ok_transport quiet_handlers (empty_config\<lparr>withFullResponse := Some False\<rparr>)
          guarded_registered)
     = Inr (Payload ''payload'') \<and>
   fst (request ok_transport quiet_handlers (empty_config\<lparr>withFullResponse := Some True\<rparr>)
          default_registered)
     = Inr (Envelope \<lparr>status = 200, headers = [], data = ''payload''\<rparr>) \<and>
   fst (request ok_transport quiet_handlers empty_config default_registered)
     = Inr (Payload ''payload'')"
proof -
  have n: "instanceName empty_config = None" "instanceName unobserved_config = None"
          "instanceName (empty_config\<lparr>withFullResponse := Some False\<rparr>) = None"
          "instanceName (empty_config\<lparr>withFullResponse := Some True\<rparr>) = None"
    by (simp_all add: empty_config_def unobserved_config_def)
  have g: "map_get (instanceMap guarded_registered) (name_or_default (instanceName c))
             = Some (create guarded_defaults)"
    if "instanceName c = None" for c :: config
    using that by (simp add: guarded_registered_eq map_get_def)
  have d: "map_get (instanceMap default_registered) (name_or_default (instanceName c))
             = Some (create empty_config)"
    if "instanceName c = None" for c :: config
    using that by (simp add: default_registered_eq map_get_def)
  have a: "attempt ok_transport c guarded_registered
             = Inr \<lparr>status = 200, headers = [], data = ''payload''\<rparr>"
    if "instanceName c = None" for c :: config
    using that by (simp add: attempt_ok_example)
  have b: "attempt ok_transport c default_registered
             = Inr \<lparr>status = 200, headers = [], data = ''payload''\<rparr>"
    if "instanceName c = None" for c :: config
    using that
    by (simp add: attempt_def one_shot_attach_def default_registered_eq map_get_def
          ok_transport_def split: prod.splits)
  show ?thesis
    using withFullResponse_resolution[OF g[OF n(1)] a[OF n(1)], of quiet_handlers]
          withFullResponse_resolution[OF g[OF n(2)] a[OF n(2)], of quiet_handlers]
          withFullResponse_resolution[OF g[OF n(3)] a[OF n(3)], of quiet_handlers]
          withFullResponse_resolution[OF d[OF n(4)] b[OF n(4)], of quiet_handlers]
          withFullResponse_resolution[OF d[OF n(1)] b[OF n(1)], of quiet_handlers]
    by (simp add: create_def guarded_defaults_def empty_config_def unobserved_config_def)
qed

subsection \<open>The error policy\<close>

text \<open>
  Claim C6. When the call's configuration sets \<^verbatim>\<open>skipErrorHandler\<close> to true, a
  failing call (the instance is not found, or the underlying call rejects)
  rejects with the original error, and no error handler is called, neither the
  call's nor the instance's.
\<close>

theorem skipErrorHandler_bypasses_handlers:
  assumes "skipErrorHandler c = Some True" and "attempt send c s = Inl err"
  shows "fst (request send run c s) = Inl err \<and>
         filter is_handler_call (trace (snd (request send run c s)))
           = filter is_handler_call (trace s)"
  by (simp add: request_result request_trace assms handler_calls_ejections)

theorem skipErrorHandler_bypasses_handlers_witness:
  "skipErrorHandler skipping_config = Some True \<and>
   handler_of skipping_config = Some ''onCallError'' \<and>
   instance_handler skipping_config guarded_registered = Some ''onInstanceError'' \<and>
   attempt failing_transport skipping_config guarded_registered
     = Inl (Thrown ''Network Error'') \<and>
   fst (request failing_transport throwing_handlers skipping_config guarded_registered)
     = Inl (Thrown ''Network Error'') \<and>
   filter is_handler_call
     (trace (snd (request failing_transport throwing_handlers skipping_config
                    guarded_registered)))
     = []"
proof -
  have 1: "skipErrorHandler skipping_config = Some True"
    by (simp add: skipping_config_def)
  have 2: "attempt failing_transport skipping_config guarded_registered
             = Inl (Thrown ''Network Error'')"
    by (simp add: attempt_failing_example unnamed_examples)
  have 3: "handler_of skipping_config = Some ''onCallError''"
    by (simp add: handler_of_def skipping_config_def observed_config_def)
  have 4: "instance_handler skipping_config guarded_registered = Some ''onInstanceError''"
    by (simp add: instance_handler_def instance_defaults_def guarded_registered_eq
          unnamed_examples create_def guarded_defaults_def handler_of_def)
  from skipErrorHandler_bypasses_handlers[OF 1 2, of throwing_handlers] 1 2 3 4
  show ?thesis
    by (simp add: no_calls_yet)
qed

text \<open>
  Claim C7, as stated: after the handler has been called the original error is
  thrown again in all cases. A handler is called with no guard around it, so
  when it throws, its error leaves \<^verbatim>\<open>request\<close> and the original one is lost:
  here the underlying call rejects with a network error, the call-level
  handler throws, and the caller gets the handler's error.
\<close>

theorem throwing_handler_replaces_error:
  "skipErrorHandler observed_config \<noteq> Some True \<and>
   handler_of observed_config = Some ''onCallError'' \<and>
   attempt failing_transport observed_config guarded_registered
     = Inl (Thrown ''Network Error'') \<and>
   fst (request failing_transport throwing_handlers observed_config guarded_registered)
     = Inl (Thrown ''handler failed'')"
proof -
  have 1: "skipErrorHandler observed_config \<noteq> Some True"
    by (simp add: observed_config_def empty_config_def)
  have 2: "attempt failing_transport observed_config guarded_registered
             = Inl (Thrown ''Network Error'')"
    by (simp add: attempt_failing_example unnamed_examples)
  have 3: "handler_of observed_config = Some ''onCallError''"
    by (simp add: handler_of_def observed_config_def)
  have "fst (request failing_transport throwing_handlers observed_config guarded_registered)
          = Inl (Thrown ''handler failed'')"
    by (simp add: request_result 1 2 3 chosen_handler_def rethrown_def throwing_handlers_def)
  with 1 2 3 show ?thesis by simp
qed

text \<open>
  Claim C7, amended. For a failing call that does not skip error handling:
  when the call has an \<^verbatim>\<open>errorConfig.errorHandler\<close>, this handler is called
  exactly once, with the error and the merged configuration, and the
  instance's handler is not called; when only the instance has a handler, that
  one is called instead, once; with no handler nothing is called. The call
  always ends in a rejection: with the original error when no handler was
  called or the handler returned, with the handler's own error when it threw.
\<close>

theorem error_handler_policy:
  assumes "skipErrorHandler c \<noteq> Some True" and "attempt send c s = Inl err"
  shows "filter is_handler_call (trace (snd (request send run c s))) =
           filter is_handler_call (trace s) @
             (case handler_of c of
                Some h \<Rightarrow> [ErrorHandlerCall h err (merged_config c s)]
              | None \<Rightarrow>
                 (case instance_handler c s of
                    Some h \<Rightarrow> [ErrorHandlerCall h err (merged_config c s)]
                  | None \<Rightarrow> [])) \<and>
         fst (request send run c s) =
           Inl (case handler_of c of
                  Some h \<Rightarrow> rethrown run h err (merged_config c s)
                | None \<Rightarrow>
                   (case instance_handler c s of
                      Some h \<Rightarrow> rethrown run h err (merged_config c s)
                    | None \<Rightarrow> err))"
  by (simp add: request_result request_trace assms handler_calls_ejections chosen_handler_eq
        split: option.splits)

theorem error_handler_policy_witness:
  "skipErrorHandler observed_config \<noteq> Some True \<and>
   attempt failing_transport observed_config guarded_registered
     = Inl (Thrown ''Network Error'') \<and>
   handler_of observed_config = Some ''onCallError'' \<and>
   instance_handler observed_config guarded_registered = Some ''onInstanceError'' \<and>
   filter is_handler_call
     (trace (snd (request failing_transport quiet_handlers observed_config guarded_registered)))
     = [ErrorHandlerCall ''onCallError'' (Thrown ''Network Error'')
          (observed_config\<lparr>withFullResponse := Some True\<rparr>)] \<and>
   fst (request failing_transport quiet_handlers observed_config guarded_registered)
     = Inl (Thrown ''Network Error'')"
proof -
  have 1: "skipErrorHandler observed_config \<noteq> Some True"
    by (simp add: observed_config_def empty_config_def)
  have 2: "attempt failing_transport observed_config guarded_registered
             = Inl (Thrown ''Network Error'')"
    by (simp add: attempt_failing_example unnamed_examples)
  have 3: "handler_of observed_config = Some ''onCallError''"
    by (simp add: handler_of_def observed_config_def)
  have 4: "instance_handler observed_config guarded_registered = Some ''onInstanceError''"
    by (simp add: instance_handler_def instance_defaults_def guarded_registered_eq
          unnamed_examples create_def guarded_defaults_def handler_of_def)
  from error_handler_policy[OF 1 2, of quiet_handlers] 1 2 3 4
  show ?thesis
    by (simp add: merged_observed rethrown_def quiet_handlers_def no_calls_yet)
qed

text \<open>
  Claim C10. Whether a failing call skips error handling depends on the call's
  own \<^verbatim>\<open>skipErrorHandler\<close> alone: whatever the instance's registered defaults
  say, handlers are bypassed exactly when the call's flag is true, and a call
  whose flag is false or absent gets the handler called, also on an instance
  registered with \<^verbatim>\<open>skipErrorHandler\<close> true.
\<close>

theorem skip_decision_is_call_level:
  assumes "map_get (instanceMap s) (name_or_default (instanceName c)) = Some inst"
      and "attempt send c s = Inl err"
  shows "filter is_handler_call (trace (snd (request send run c s))) =
           filter is_handler_call (trace s) @
             (if skipErrorHandler c = Some True then []
              else case handler_of c of
                     Some h \<Rightarrow> [ErrorHandlerCall h err (merged_config c s)]
                   | None \<Rightarrow>
                      (case handler_of (defaults inst) of
                         Some h \<Rightarrow> [ErrorHandlerCall h err (merged_config c s)]
                       | None \<Rightarrow> []))"
  by (simp add: request_trace assms(2) handler_calls_ejections chosen_handler_def
        found_defaults[OF assms(1)] split: option.splits)

theorem skip_decision_is_call_level_witness:
  "skipErrorHandler (defaults (create guarded_defaults)) = Some True \<and>
   skipErrorHandler unobserved_config = Some False \<and>
   map_get (instanceMap guarded_registered) (name_or_default (instanceName unobserved_config))
     = Some (create guarded_defaults) \<and>
   attempt failing_transport unobserved_config guarded_registered
     = Inl (Thrown ''Network Error'') \<and>
   filter is_handler_call
     (trace (snd (request failing_transport quiet_handlers unobserved_config
                    guarded_registered)))
     = [ErrorHandlerCall ''onInstanceError'' (Thrown ''Network Error'')
          (unobserved_config\<lparr>withFullResponse := Some True\<rparr>)]"
proof -
  have 0: "skipErrorHandler (defaults (create guarded_defaults)) = Some True"
    by (simp add: create_def guarded_defaults_def)
  have 1: "map_get (instanceMap guarded_registered)
             (name_or_default (instanceName unobserved_config))
           = Some (create guarded_defaults)"
    by (simp add: guarded_registered_eq map_get_def unnamed_examples)
  have 2: "attempt failing_transport unobserved_config guarded_registered
             = Inl (Thrown ''Network Error'')"
    by (simp add: attempt_failing_example unnamed_examples)
  have 5: "handler_of unobserved_config = None"
    by (simp add: handler_of_def unobserved_config_def empty_config_def)
  have 6: "handler_of (defaults (create guarded_defaults)) = Some ''onInstanceError''"
    by (simp add: handler_of_def create_def guarded_defaults_def)
  have 7: "skipErrorHandler unobserved_config = Some False"
    by (simp add: unobserved_config_def)
  from skip_decision_is_call_level[OF 1 2, of quiet_handlers] 0 1 2 7
  show ?thesis
    by (simp add: merged_unobserved no_calls_yet 5 6)
qed

end
